theory Spec2Isabelle
  imports Complex_Main
begin

section \<open>Shared vocabulary\<close>

text \<open>
  The program is a single Python module, \<^verbatim>\<open>main.py\<close>. Calls into the operating system
  and into the libraries \<^verbatim>\<open>psutil\<close>, \<^verbatim>\<open>torch\<close>, \<^verbatim>\<open>whisper\<close> and \<^verbatim>\<open>ffmpeg\<close> are
  inputs of the model: every such call is given by its outcome, \<open>Inl msg\<close> when it raises an
  exception whose text is \<open>msg\<close> and \<open>Inr v\<close> when it returns \<open>v\<close>.
\<close>

definition ALL_MODELS :: "string list" where
  "ALL_MODELS = [''tiny'', ''base'', ''small'', ''medium'', ''large'']"

section \<open>check_recommended_model\<close>

text \<open>
  The outcomes of the six probes the function makes, in the order of the source:
  \<^verbatim>\<open>psutil.cpu_count(logical=False)\<close>, \<^verbatim>\<open>psutil.virtual_memory().total\<close>,
  \<^verbatim>\<open>torch.cuda.is_available()\<close>, \<^verbatim>\<open>torch.cuda.get_device_name(0)\<close>,
  \<^verbatim>\<open>torch.cuda.get_device_properties(0).total_memory\<close> and
  \<^verbatim>\<open>psutil.virtual_memory().available\<close>. Memory sizes are byte counts.
\<close>

record sys_probe =
  cpu_count :: "string + nat option"
  vm_total :: "string + nat"
  cuda_probe :: "string + bool"
  device_name :: "string + string"
  device_total_memory :: "string + nat"
  vm_available :: "string + nat"

record specs =
  cpu :: "nat option"
  ram :: real
  gpu :: "string option"
  vram :: "real option"

text \<open>
  Python's \<^verbatim>\<open>round(x, 2)\<close>: to the nearest hundredth, a tie going to the even one. The
  quotients of the source are floats; the model keeps their exact values, which compare
  with 4, 6 and 8 as the floats do.
\<close>

definition round_half_even :: "real \<Rightarrow> int" where
  "round_half_even x =
     (let f = \<lfloor>x\<rfloor>; d = x - of_int f
      in if d < 1 / 2 then f
         else if 1 / 2 < d then f + 1
         else if even f then f else f + 1)"

definition round2 :: "real \<Rightarrow> real" where
  "round2 x = of_int (round_half_even (x * 100)) / 100"

text \<open>A byte count divided by \<^verbatim>\<open>1024 ** 3\<close>.\<close>

definition gib :: "nat \<Rightarrow> real" where
  "gib b = of_nat b / 1024 ^ 3"

definition vram_choice :: "real \<Rightarrow> string" where
  "vram_choice v =
     (if 8 \<le> v then ''large''
      else if 6 \<le> v then ''medium''
      else if 4 \<le> v then ''small''
      else ''base'')"

text \<open>
  The body of the \<^verbatim>\<open>try\<close> block (lines 46 to 59), started with the dictionary \<open>s\<close>. An
  exception leaves the dictionary as it was when raised, and the handler sets the
  recommendation to \<^verbatim>\<open>"tiny"\<close>.
\<close>

definition guarded_probe :: "sys_probe \<Rightarrow> specs \<Rightarrow> string \<times> specs" where
  "guarded_probe p s =
     (case cuda_probe p of
        Inl e \<Rightarrow> (''tiny'', s)
      | Inr True \<Rightarrow>
          (case device_name p of
             Inl e \<Rightarrow> (''tiny'', s)
           | Inr n \<Rightarrow>
               (case device_total_memory p of
                  Inl e \<Rightarrow> (''tiny'', s\<lparr>gpu := Some n\<rparr>)
                | Inr m \<Rightarrow>
                    (vram_choice (round2 (gib m)),
                     s\<lparr>gpu := Some n, vram := Some (round2 (gib m))\<rparr>)))
      | Inr False \<Rightarrow>
          (case vm_available p of
             Inl e \<Rightarrow> (''tiny'', s)
           | Inr a \<Rightarrow> (if 8 \<le> gib a then ''small'' else ''base'', s)))"

text \<open>
  The dictionary \<^verbatim>\<open>specs\<close> is built before the \<^verbatim>\<open>try\<close> block (lines 38 to 43): an
  exception of one of its two probes leaves the function.
\<close>

definition check_recommended_model :: "sys_probe \<Rightarrow> string + (string \<times> specs)" where
  "check_recommended_model p =
     (case cpu_count p of
        Inl e \<Rightarrow> Inl e
      | Inr c \<Rightarrow>
          (case vm_total p of
             Inl e \<Rightarrow> Inl e
           | Inr t \<Rightarrow>
               Inr (guarded_probe p
                      \<lparr>cpu = c, ram = round2 (gib t), gpu = None, vram = None\<rparr>)))"

text \<open>
  The decision table as the specification words it, over the two quantities it names: the
  video memory of the profile, absent without a GPU, and the available main memory, both in
  GB.
\<close>

definition decision_table :: "real option \<Rightarrow> real \<Rightarrow> string" where
  "decision_table v ram_avail =
     (case v of
        Some x \<Rightarrow>
          (if 8 \<le> x then ''large''
           else if 6 \<le> x then ''medium''
           else if 4 \<le> x then ''small''
           else ''base'')
      | None \<Rightarrow> (if 8 \<le> ram_avail then ''small'' else ''base''))"

section \<open>convert_file_if_needed\<close>

text \<open>
  Paths are strings of 8-bit characters. \<^verbatim>\<open>str.rfind\<close> for a single character: the index of
  its last occurrence, or \<open>-1\<close>.
\<close>

fun rfind :: "char \<Rightarrow> string \<Rightarrow> int" where
  "rfind c [] = - 1"
| "rfind c (x # xs) =
     (let r = rfind c xs
      in if 0 \<le> r then r + 1 else if x = c then 0 else - 1)"

text \<open>
  \<^verbatim>\<open>os.path.splitext\<close> of the standard library, in its POSIX form (separator \<^verbatim>\<open>/\<close>): the
  extension starts at the last dot, if that dot comes after the last separator and some
  character between the two is not a dot.
\<close>

definition splitext :: "string \<Rightarrow> string \<times> string" where
  "splitext p =
     (let sepIndex = rfind (CHR ''/'') p;
          dotIndex = rfind (CHR ''.'') p
      in if sepIndex < dotIndex \<and>
            list_ex (\<lambda>c. c \<noteq> CHR ''.'')
              (take (nat (dotIndex - (sepIndex + 1))) (drop (nat (sepIndex + 1)) p))
         then (take (nat dotIndex) p, drop (nat dotIndex) p)
         else (p, ''''))"

text \<open>\<^verbatim>\<open>str.lower\<close> on the ASCII letters.\<close>

definition lower_char :: "char \<Rightarrow> char" where
  "lower_char c =
     (let n = (of_char c :: nat)
      in if 65 \<le> n \<and> n \<le> 90 then char_of (n + 32) else c)"

definition lower :: "string \<Rightarrow> string" where
  "lower s = map lower_char s"

definition audio_ext :: "string list" where
  "audio_ext = [''.mp3'', ''.wav'', ''.m4a'', ''.flac'']"

definition video_ext :: "string list" where
  "video_ext = [''.mp4'', ''.avi'', ''.mov'', ''.mkv'']"

text \<open>
  The two things the function asks of its environment: whether \<^verbatim>\<open>shutil.which("ffmpeg")\<close>
  finds the program, and the exit status of the command line given to
  \<^verbatim>\<open>subprocess.run\<close>.
\<close>

record conv_env =
  ffmpeg_on_path :: bool
  ffmpeg_exit :: "string list \<Rightarrow> int"

datatype py_exception = FileNotFoundError string

definition ffmpeg_missing_message :: string where
  "ffmpeg_missing_message = ''ffmpeg non e stato trovato nel PATH. Assicurati che sia installato e configurato correttamente.''"

text \<open>
  The message of line 74 is kept in ASCII, its accented letter written plain.
  The result is \<open>Inl\<close> for the exception raised at line 74, \<open>Inr None\<close> for the two
  \<^verbatim>\<open>return None\<close> of lines 93 and 96 and \<open>Inr (Some path)\<close> for a returned path.
  \<^verbatim>\<open>check=True\<close> makes a non-zero exit status the exception that line 91 catches.
\<close>

definition convert_file_if_needed :: "conv_env \<Rightarrow> string \<Rightarrow> py_exception + string option" where
  "convert_file_if_needed env file_path =
     (if \<not> ffmpeg_on_path env then Inl (FileNotFoundError ffmpeg_missing_message)
      else
        let ext = lower (snd (splitext file_path))
        in if ext \<in> set audio_ext then Inr (Some file_path)
           else if ext \<in> set video_ext then
             (let new_file = fst (splitext file_path) @ ''.wav'';
                  command = [''ffmpeg'', ''-y'', ''-i'', file_path, new_file]
              in if ffmpeg_exit env command = 0 then Inr (Some new_file) else Inr None)
           else Inr None)"

section \<open>ModelManager\<close>

text \<open>
  The file system is a map from paths to file contents. \<^verbatim>\<open>os.path.join\<close> is the one of
  the standard library in its POSIX form, for two components.
\<close>

type_synonym filesystem = "string \<rightharpoonup> string"

definition os_path_join :: "string \<Rightarrow> string \<Rightarrow> string" where
  "os_path_join a b =
     (if take 1 b = ''/'' then b
      else if a = [] \<or> drop (length a - 1) a = ''/'' then a @ b
      else a @ ''/'' @ b)"

definition cache_folder :: string where
  "cache_folder = ''models''"

definition model_path :: "string \<Rightarrow> string" where
  "model_path model_name = os_path_join cache_folder (model_name @ ''.model'')"

definition is_model_downloaded :: "filesystem \<Rightarrow> string \<Rightarrow> bool" where
  "is_model_downloaded fs model_name = (fs (model_path model_name) \<noteq> None)"

definition mark_model_as_downloaded :: "filesystem \<Rightarrow> string \<Rightarrow> filesystem" where
  "mark_model_as_downloaded fs model_name = fs(model_path model_name \<mapsto> ''downloaded'')"

text \<open>
  What the worker threads ask of \<^verbatim>\<open>torch\<close> and \<^verbatim>\<open>whisper\<close>:
  \<^verbatim>\<open>torch.cuda.is_available()\<close>, the outcome of \<^verbatim>\<open>whisper.load_model(name, device)\<close>,
  and the outcome of \<^verbatim>\<open>model.transcribe(path, fp16=...)\<close>, which on success is the value
  stored under \<^verbatim>\<open>"text"\<close> in the returned dictionary, if any. The type \<open>'m\<close> is the one of
  the loaded models.
\<close>

datatype device = Cuda | Cpu

record 'm env =
  cuda_is_available :: bool
  whisper_load_model :: "string \<Rightarrow> device \<Rightarrow> string + 'm"
  transcribe :: "'m \<Rightarrow> string \<Rightarrow> bool \<Rightarrow> string + string option"

record 'm model_manager =
  loaded_model :: "'m option"
  current_model_name :: "string option"

definition model_manager_init :: "'m model_manager" where
  "model_manager_init = \<lparr>loaded_model = None, current_model_name = None\<rparr>"

text \<open>
  What a call of \<^verbatim>\<open>load_model\<close> does besides returning: the calls of the progress callback,
  the choice of the device and the call of \<^verbatim>\<open>whisper.load_model\<close>, in order.
\<close>

datatype load_action = Callback int | SelectDevice device | WhisperLoad string device

text \<open>
  Lines 124 to 134: the load proper. \<open>cb\<close> tells whether a progress callback was given.
  An exception of \<^verbatim>\<open>whisper.load_model\<close> leaves the manager as it was.
\<close>

definition full_load ::
  "'m env \<Rightarrow> 'm model_manager \<Rightarrow> string \<Rightarrow> bool
     \<Rightarrow> (string + 'm) \<times> 'm model_manager \<times> load_action list" where
  "full_load env mm model_name cb =
     (let dev = (if cuda_is_available env then Cuda else Cpu);
          started = (if cb then [Callback 0] else [])
                      @ [SelectDevice dev, WhisperLoad model_name dev]
      in case whisper_load_model env model_name dev of
           Inl e \<Rightarrow> (Inl e, mm, started)
         | Inr model \<Rightarrow>
             (Inr model,
              mm\<lparr>loaded_model := Some model, current_model_name := Some model_name\<rparr>,
              started @ (if cb then [Callback 100] else [])))"

definition load_model ::
  "'m env \<Rightarrow> 'm model_manager \<Rightarrow> string \<Rightarrow> bool
     \<Rightarrow> (string + 'm) \<times> 'm model_manager \<times> load_action list" where
  "load_model env mm model_name cb =
     (case loaded_model mm of
        Some m \<Rightarrow>
          (if current_model_name mm = Some model_name then (Inr m, mm, [])
           else full_load env mm model_name cb)
      | None \<Rightarrow> full_load env mm model_name cb)"

fun callbacks :: "load_action list \<Rightarrow> int list" where
  "callbacks [] = []"
| "callbacks (Callback p # as) = p # callbacks as"
| "callbacks (a # as) = callbacks as"

text \<open>
  A sequence of calls of \<^verbatim>\<open>load_model\<close> on the one manager, each with the environment it
  meets, the requested name and whether it passes a callback. The result is the manager
  after the last call and what each call returned.
\<close>

fun load_sequence ::
  "'m model_manager \<Rightarrow> ('m env \<times> string \<times> bool) list
     \<Rightarrow> 'm model_manager \<times> (string \<times> (string + 'm)) list" where
  "load_sequence mm [] = (mm, [])"
| "load_sequence mm ((env, model_name, cb) # calls) =
     (case load_model env mm model_name cb of
        (r, mm', acts) \<Rightarrow>
          (case load_sequence mm' calls of
             (mm'', rs) \<Rightarrow> (mm'', (model_name, r) # rs)))"

text \<open>The last call of a sequence that returned a model, with the name it was asked for.\<close>

fun last_loaded :: "(string \<times> (string + 'm)) list \<Rightarrow> (string \<times> 'm) option" where
  "last_loaded [] = None"
| "last_loaded ((n, r) # rs) =
     (case last_loaded rs of
        Some x \<Rightarrow> Some x
      | None \<Rightarrow> (case r of Inr m \<Rightarrow> Some (n, m) | Inl e \<Rightarrow> None))"

section \<open>The worker threads\<close>

text \<open>The signals of the two threads, in the order of emission.\<close>

datatype event =
  ProgressUpdated int
| DownloadFinished bool string
| TranscriptionFinished string
| ErrorOccurred string

fun is_terminal :: "event \<Rightarrow> bool" where
  "is_terminal (ProgressUpdated p) = False"
| "is_terminal e = True"

fun percentages :: "event list \<Rightarrow> int list" where
  "percentages [] = []"
| "percentages (ProgressUpdated p # es) = p # percentages es"
| "percentages (e # es) = percentages es"

text \<open>\<^verbatim>\<open>DownloaderThread.run\<close>: the signals emitted and the manager it leaves.\<close>

definition downloader_run ::
  "'m env \<Rightarrow> 'm model_manager \<Rightarrow> string \<Rightarrow> event list \<times> 'm model_manager" where
  "downloader_run env mm model_name =
     (case load_model env mm model_name True of
        (r, mm', acts) \<Rightarrow>
          (ProgressUpdated 0 # map ProgressUpdated (callbacks acts)
             @ [case r of
                  Inr model \<Rightarrow> DownloadFinished True ''''
                | Inl e \<Rightarrow> DownloadFinished False e],
           mm'))"

text \<open>
  \<^verbatim>\<open>TranscriptionThread.run\<close> runs while the interactive thread may call
  \<^verbatim>\<open>interrupt\<close>, so it is a machine that executes one statement at a time. The program
  counter names the line of the source that comes next and carries the local variables
  \<^verbatim>\<open>model\<close> and \<^verbatim>\<open>final_text\<close> once they are bound.
\<close>

datatype 'm tpc =
  L180 | L181 | L183 'm | L184 'm | L189 'm | L192 'm | L194 string | L196 string | Returned

record 'm tthread =
  t_model_name :: string
  t_file_path :: string
  is_interrupted :: bool
  pc :: "'m tpc"
  emitted :: "event list"
  recognizer_calls :: "(string \<times> bool) list"

definition transcription_thread_init :: "string \<Rightarrow> string \<Rightarrow> 'm tthread" where
  "transcription_thread_init model_name file_path =
     \<lparr>t_model_name = model_name, t_file_path = file_path, is_interrupted = False,
      pc = L180, emitted = [], recognizer_calls = []\<rparr>"

definition emit :: "event \<Rightarrow> 'm tthread \<Rightarrow> 'm tthread" where
  "emit e th = th\<lparr>emitted := emitted th @ [e]\<rparr>"

definition interrupted_message :: string where
  "interrupted_message = ''Trascrizione interrotta.''"

definition transcription_step ::
  "'m env \<Rightarrow> 'm tthread \<times> 'm model_manager \<Rightarrow> 'm tthread \<times> 'm model_manager" where
  "transcription_step env s =
     (case s of (th, mm) \<Rightarrow>
        (case pc th of
           L180 \<Rightarrow> (emit (ProgressUpdated 0) (th\<lparr>pc := L181\<rparr>), mm)
         | L181 \<Rightarrow>
             (case load_model env mm (t_model_name th) True of
                (r, mm', acts) \<Rightarrow>
                  (let th' = th\<lparr>emitted := emitted th @ map ProgressUpdated (callbacks acts)\<rparr>
                   in case r of
                        Inl e \<Rightarrow> (emit (ErrorOccurred e) (th'\<lparr>pc := Returned\<rparr>), mm')
                      | Inr model \<Rightarrow> (th'\<lparr>pc := L183 model\<rparr>, mm')))
         | L183 model \<Rightarrow> (emit (ProgressUpdated 100) (th\<lparr>pc := L184 model\<rparr>), mm)
         | L184 model \<Rightarrow>
             (if is_interrupted th
              then (emit (ErrorOccurred interrupted_message) (th\<lparr>pc := Returned\<rparr>), mm)
              else (th\<lparr>pc := L189 model\<rparr>, mm))
         | L189 model \<Rightarrow> (emit (ProgressUpdated 50) (th\<lparr>pc := L192 model\<rparr>), mm)
         | L192 model \<Rightarrow>
             (let use_fp16 = cuda_is_available env;
                  th' = th\<lparr>recognizer_calls := recognizer_calls th @ [(t_file_path th, use_fp16)]\<rparr>
              in case transcribe env model (t_file_path th) use_fp16 of
                   Inl e \<Rightarrow> (emit (ErrorOccurred e) (th'\<lparr>pc := Returned\<rparr>), mm)
                 | Inr result \<Rightarrow>
                     (th'\<lparr>pc := L194 (case result of Some t \<Rightarrow> t | None \<Rightarrow> '''')\<rparr>, mm))
         | L194 final_text \<Rightarrow> (emit (ProgressUpdated 100) (th\<lparr>pc := L196 final_text\<rparr>), mm)
         | L196 final_text \<Rightarrow> (emit (TranscriptionFinished final_text) (th\<lparr>pc := Returned\<rparr>), mm)
         | Returned \<Rightarrow> (th, mm)))"

text \<open>\<^verbatim>\<open>TranscriptionThread.interrupt\<close>, called from the interactive thread.\<close>

definition interrupt :: "'m tthread \<times> 'm model_manager \<Rightarrow> 'm tthread \<times> 'm model_manager" where
  "interrupt s = (case s of (th, mm) \<Rightarrow> (th\<lparr>is_interrupted := True\<rparr>, mm))"

text \<open>
  A whole run of the thread: \<^verbatim>\<open>run\<close> returns after at most eight statements. With
  \<open>Some k\<close> the interactive thread calls \<^verbatim>\<open>interrupt\<close> once \<open>k\<close> statements of \<^verbatim>\<open>run\<close>
  are done (a second call would change nothing); with \<open>None\<close> it never does.
\<close>

definition transcription_run ::
  "'m env \<Rightarrow> nat option \<Rightarrow> 'm model_manager \<Rightarrow> string \<Rightarrow> string
     \<Rightarrow> 'm tthread \<times> 'm model_manager" where
  "transcription_run env intr mm model_name file_path =
     (let s = (transcription_thread_init model_name file_path, mm)
      in case intr of
           None \<Rightarrow> (transcription_step env ^^ 8) s
         | Some k \<Rightarrow>
             (transcription_step env ^^ (8 - k)) (interrupt ((transcription_step env ^^ k) s)))"

text \<open>
  The same method read from top to bottom, as a function of the value that the test of
  line 184 finds in the flag: the signals of a whole run and the calls of
  \<^verbatim>\<open>model.transcribe\<close> it makes. \<open>after_check\<close> is lines 184 to 196. The machine above
  is shown below to produce exactly these, the flag being set at line 184 when
  \<^verbatim>\<open>interrupt\<close> came before the fourth statement.
\<close>

definition flag_at_check :: "nat option \<Rightarrow> bool" where
  "flag_at_check intr = (case intr of Some k \<Rightarrow> k \<le> 3 | None \<Rightarrow> False)"

definition after_check :: "bool \<Rightarrow> 'm env \<Rightarrow> 'm \<Rightarrow> string \<Rightarrow> event list" where
  "after_check flag env model file_path =
     (if flag then [ErrorOccurred interrupted_message]
      else ProgressUpdated 50 #
        (case transcribe env model file_path (cuda_is_available env) of
           Inl e \<Rightarrow> [ErrorOccurred e]
         | Inr result \<Rightarrow>
             [ProgressUpdated 100,
              TranscriptionFinished (case result of Some t \<Rightarrow> t | None \<Rightarrow> '''')]))"

definition run_signals ::
  "'m env \<Rightarrow> bool \<Rightarrow> 'm model_manager \<Rightarrow> string \<Rightarrow> string \<Rightarrow> event list" where
  "run_signals env flag mm model_name file_path =
     (case load_model env mm model_name True of
        (r, mm', acts) \<Rightarrow>
          ProgressUpdated 0 # map ProgressUpdated (callbacks acts)
            @ (case r of
                 Inl e \<Rightarrow> [ErrorOccurred e]
               | Inr model \<Rightarrow> ProgressUpdated 100 # after_check flag env model file_path))"

definition run_calls ::
  "'m env \<Rightarrow> bool \<Rightarrow> 'm model_manager \<Rightarrow> string \<Rightarrow> string \<Rightarrow> (string \<times> bool) list" where
  "run_calls env flag mm model_name file_path =
     (case load_model env mm model_name True of
        (r, mm', acts) \<Rightarrow>
          (case r of
             Inl e \<Rightarrow> []
           | Inr model \<Rightarrow> if flag then [] else [(file_path, cuda_is_available env)]))"

text \<open>The program points after the test of line 184.\<close>

fun past_check :: "'m tpc \<Rightarrow> bool" where
  "past_check L180 = False"
| "past_check L181 = False"
| "past_check (L183 m) = False"
| "past_check (L184 m) = False"
| "past_check p = True"

section \<open>MainWindow\<close>

text \<open>
  A combo box: its entries and the index of the current one, \<open>-1\<close> when there is none.
  \<open>combo_filled\<close> is \<^verbatim>\<open>clear()\<close> followed by \<^verbatim>\<open>addItems(xs)\<close>, which makes the first
  entry current.
\<close>

record combo =
  items :: "string list"
  current_index :: int

definition combo_filled :: "string list \<Rightarrow> combo" where
  "combo_filled xs = \<lparr>items = xs, current_index = (if xs = [] then - 1 else 0)\<rparr>"

definition currentText :: "combo \<Rightarrow> string" where
  "currentText c =
     (if 0 \<le> current_index c \<and> current_index c < int (length (items c))
      then items c ! nat (current_index c) else '''')"

fun findText_from :: "int \<Rightarrow> string list \<Rightarrow> string \<Rightarrow> int" where
  "findText_from i [] t = - 1"
| "findText_from i (x # xs) t = (if x = t then i else findText_from (i + 1) xs t)"

definition findText :: "combo \<Rightarrow> string \<Rightarrow> int" where
  "findText c t = findText_from 0 (items c) t"

definition setCurrentIndex :: "combo \<Rightarrow> int \<Rightarrow> combo" where
  "setCurrentIndex c i =
     c\<lparr>current_index := (if 0 \<le> i \<and> i < int (length (items c)) then i else - 1)\<rparr>"

text \<open>
  The fields of the window that its slots read and write. A thread field holds the
  arguments the thread object was made with.
\<close>

record main_window =
  w_file_path :: "string option"
  downloader_thread :: "string option"
  transcription_thread :: "(string \<times> string) option"
  last_progress_update :: real
  combo_available :: combo
  combo_downloaded :: combo

definition setup_model_lists ::
  "sys_probe \<Rightarrow> filesystem \<Rightarrow> main_window \<Rightarrow> string + main_window" where
  "setup_model_lists probe fs w =
     (case check_recommended_model probe of
        Inl e \<Rightarrow> Inl e
      | Inr (recommended, sp) \<Rightarrow>
          (let downloaded = filter (\<lambda>m. is_model_downloaded fs m) ALL_MODELS;
               available = filter (\<lambda>m. \<not> is_model_downloaded fs m) ALL_MODELS;
               cd = combo_filled downloaded;
               cd' = (if recommended \<in> set downloaded
                      then (let index = findText cd recommended
                            in if index \<noteq> - 1 then setCurrentIndex cd index else cd)
                      else cd)
           in Inr (w\<lparr>combo_downloaded := cd', combo_available := combo_filled available\<rparr>)))"

text \<open>\<^verbatim>\<open>MainWindow.__init__\<close> at the time \<open>now\<close>.\<close>

definition main_window_init :: "real \<Rightarrow> sys_probe \<Rightarrow> filesystem \<Rightarrow> string + main_window" where
  "main_window_init now probe fs =
     setup_model_lists probe fs
       \<lparr>w_file_path = None, downloader_thread = None, transcription_thread = None,
        last_progress_update = now,
        combo_available = combo_filled [], combo_downloaded = combo_filled []\<rparr>"

text \<open>
  The timer slot, run at the time \<open>now\<close>: whether it shows the message of line 314.
\<close>

definition check_progress_stuck :: "real \<Rightarrow> main_window \<Rightarrow> bool" where
  "check_progress_stuck now w = (20 < now - last_progress_update w)"

definition download_model :: "main_window \<Rightarrow> main_window" where
  "download_model w =
     (if length (items (combo_available w)) = 0 then w
      else w\<lparr>downloader_thread := Some (currentText (combo_available w))\<rparr>)"

definition on_download_progress :: "real \<Rightarrow> int \<Rightarrow> main_window \<Rightarrow> main_window" where
  "on_download_progress now v w = w\<lparr>last_progress_update := now\<rparr>"

definition on_transcription_progress :: "real \<Rightarrow> int \<Rightarrow> main_window \<Rightarrow> main_window" where
  "on_transcription_progress now v w = w\<lparr>last_progress_update := now\<rparr>"

text \<open>
  The slot of \<^verbatim>\<open>downloadFinished\<close>: the file system it leaves and the window, or the
  exception of \<^verbatim>\<open>setup_model_lists\<close>.
\<close>

definition on_download_finished ::
  "sys_probe \<Rightarrow> filesystem \<Rightarrow> main_window \<Rightarrow> bool \<Rightarrow> string
     \<Rightarrow> filesystem \<times> (string + main_window)" where
  "on_download_finished probe fs w success error =
     (let fs' = (if success
                 then mark_model_as_downloaded fs (currentText (combo_available w))
                 else fs)
      in (fs', setup_model_lists probe fs' w))"

text \<open>The user picks the entry \<open>i\<close> of the box of the models to download.\<close>

definition select_available :: "int \<Rightarrow> main_window \<Rightarrow> main_window" where
  "select_available i w = w\<lparr>combo_available := setCurrentIndex (combo_available w) i\<rparr>"

text \<open>
  What reaches the interactive thread, with its time: a tick of the one-second timer, or a
  progress signal of the download or of the transcription thread. \<open>monitor\<close> gives the
  times of the ticks that show the message.
\<close>

datatype ui_event = Tick real | DownloadProgress real int | TranscriptionProgress real int

fun monitor :: "main_window \<Rightarrow> ui_event list \<Rightarrow> real list" where
  "monitor w [] = []"
| "monitor w (Tick t # es) =
     (if check_progress_stuck t w then t # monitor w es else monitor w es)"
| "monitor w (DownloadProgress t v # es) = monitor (on_download_progress t v w) es"
| "monitor w (TranscriptionProgress t v # es) = monitor (on_transcription_progress t v w) es"

section \<open>Concrete inputs\<close>

definition failing_ffmpeg :: conv_env where
  "failing_ffmpeg = \<lparr>ffmpeg_on_path = True, ffmpeg_exit = (\<lambda>_. 1)\<rparr>"

definition no_ffmpeg :: conv_env where
  "no_ffmpeg = \<lparr>ffmpeg_on_path = False, ffmpeg_exit = (\<lambda>_. 0)\<rparr>"

definition gpu_8gb :: sys_probe where
  "gpu_8gb =
     \<lparr>cpu_count = Inr (Some 4), vm_total = Inr 17179869184, cuda_probe = Inr True,
      device_name = Inr ''GPU'', device_total_memory = Inr 8589934592,
      vm_available = Inr 4294967296\<rparr>"

definition cpu_16gb :: sys_probe where
  "cpu_16gb =
     \<lparr>cpu_count = Inr (Some 4), vm_total = Inr 17179869184, cuda_probe = Inr False,
      device_name = Inl ''no device'', device_total_memory = Inl ''no device'',
      vm_available = Inr 12884901888\<rparr>"

definition no_meminfo :: sys_probe where
  "no_meminfo =
     \<lparr>cpu_count = Inr (Some 4), vm_total = Inl ''OSError'', cuda_probe = Inr False,
      device_name = Inl ''no device'', device_total_memory = Inl ''no device'',
      vm_available = Inr 17179869184\<rparr>"

text \<open>
  A machine without GPU on which every model loads and every transcription gives
  \<^verbatim>\<open>{"text": "ciao"}\<close>; the same with \<^verbatim>\<open>whisper.load_model\<close> raising.
\<close>

definition good_env :: "string env" where
  "good_env =
     \<lparr>cuda_is_available = False,
      whisper_load_model = (\<lambda>n d. Inr (''weights of '' @ n)),
      transcribe = (\<lambda>m f h. Inr (Some ''ciao''))\<rparr>"

definition offline_env :: "string env" where
  "offline_env =
     \<lparr>cuda_is_available = False,
      whisper_load_model = (\<lambda>n d. Inl ''download failed''),
      transcribe = (\<lambda>m f h. Inr (Some ''ciao''))\<rparr>"

text \<open>The window of a fresh start with nothing downloaded, at time 0.\<close>

definition idle_window :: main_window where
  "idle_window =
     \<lparr>w_file_path = None, downloader_thread = None, transcription_thread = None,
      last_progress_update = 0,
      combo_available = combo_filled ALL_MODELS, combo_downloaded = combo_filled []\<rparr>"

section \<open>The format normalizer\<close>

lemma audio_video_disjoint: "set audio_ext \<inter> set video_ext = {}"
  by (simp add: audio_ext_def video_ext_def)

lemma ext_clip_mp4: "lower (snd (splitext ''clip.mp4'')) = ''.mp4''"
  by (simp add: splitext_def lower_def lower_char_def)

lemma root_clip_mp4: "fst (splitext ''clip.mp4'') = ''clip''"
  by (simp add: splitext_def)

lemma ext_notes_xyz: "lower (snd (splitext ''notes.xyz'')) = ''.xyz''"
  by (simp add: splitext_def lower_def lower_char_def)

lemma ext_song_wav: "lower (snd (splitext ''song.wav'')) = ''.wav''"
  by (simp add: splitext_def lower_def lower_char_def)

text \<open>
  Claim C4, as the code has it. With the transcoder on the search path, a path whose
  extension is neither an audio nor a video one gives \<^verbatim>\<open>None\<close>, and so does a video path
  whose transcode exits with a non-zero status: the two failures are the same value. Both
  differ from the failure of a missing transcoder, which is the exception
  \<^verbatim>\<open>FileNotFoundError\<close>.
\<close>

theorem normalize_failure_values:
  assumes "ffmpeg_on_path env"
  shows "(lower (snd (splitext p)) \<notin> set audio_ext \<and> lower (snd (splitext p)) \<notin> set video_ext
            \<longrightarrow> convert_file_if_needed env p = Inr None)
       \<and> (lower (snd (splitext p)) \<in> set video_ext
            \<and> ffmpeg_exit env [''ffmpeg'', ''-y'', ''-i'', p, fst (splitext p) @ ''.wav''] \<noteq> 0
            \<longrightarrow> convert_file_if_needed env p = Inr None)
       \<and> (\<not> ffmpeg_on_path env' \<longrightarrow>
            convert_file_if_needed env' q = Inl (FileNotFoundError ffmpeg_missing_message)
            \<and> convert_file_if_needed env' q \<noteq> Inr None)"
proof -
  have unknown: "convert_file_if_needed env p = Inr None"
    if "lower (snd (splitext p)) \<notin> set audio_ext" "lower (snd (splitext p)) \<notin> set video_ext"
    using assms that by (simp add: convert_file_if_needed_def Let_def)
  have video: "convert_file_if_needed env p = Inr None"
    if v: "lower (snd (splitext p)) \<in> set video_ext"
      and x: "ffmpeg_exit env [''ffmpeg'', ''-y'', ''-i'', p, fst (splitext p) @ ''.wav''] \<noteq> 0"
  proof -
    from v audio_video_disjoint have "lower (snd (splitext p)) \<notin> set audio_ext" by blast
    with assms v x show ?thesis by (simp add: convert_file_if_needed_def Let_def)
  qed
  have missing: "convert_file_if_needed env' q = Inl (FileNotFoundError ffmpeg_missing_message)"
    if "\<not> ffmpeg_on_path env'"
    using that by (simp add: convert_file_if_needed_def)
  from unknown video missing show ?thesis by simp
qed

theorem normalize_failure_values_witness:
  "ffmpeg_on_path failing_ffmpeg
   \<and> lower (snd (splitext ''notes.xyz'')) \<notin> set audio_ext
   \<and> lower (snd (splitext ''notes.xyz'')) \<notin> set video_ext
   \<and> convert_file_if_needed failing_ffmpeg ''notes.xyz'' = Inr None
   \<and> lower (snd (splitext ''clip.mp4'')) \<in> set video_ext
   \<and> ffmpeg_exit failing_ffmpeg
        [''ffmpeg'', ''-y'', ''-i'', ''clip.mp4'', fst (splitext ''clip.mp4'') @ ''.wav''] \<noteq> 0
   \<and> convert_file_if_needed failing_ffmpeg ''clip.mp4'' = Inr None
   \<and> \<not> ffmpeg_on_path no_ffmpeg
   \<and> convert_file_if_needed no_ffmpeg ''clip.mp4'' \<noteq> Inr None"
  using normalize_failure_values [of failing_ffmpeg "''clip.mp4''" no_ffmpeg "''clip.mp4''"]
    normalize_failure_values [of failing_ffmpeg "''notes.xyz''" no_ffmpeg "''clip.mp4''"]
  by (simp add: failing_ffmpeg_def no_ffmpeg_def ext_clip_mp4 root_clip_mp4 ext_notes_xyz
      video_ext_def audio_ext_def)

text \<open>
  Claim C4 as stated fails: with the transcoder present and exiting with status 1, the
  unknown extension of \<^verbatim>\<open>notes.xyz\<close> and the failed transcode of \<^verbatim>\<open>clip.mp4\<close> give
  the caller the same value.
\<close>

theorem normalize_failures_indistinguishable:
  "convert_file_if_needed failing_ffmpeg ''notes.xyz'' = Inr None
   \<and> convert_file_if_needed failing_ffmpeg ''clip.mp4'' = Inr None
   \<and> convert_file_if_needed failing_ffmpeg ''notes.xyz''
       = convert_file_if_needed failing_ffmpeg ''clip.mp4''"
  by (simp add: convert_file_if_needed_def failing_ffmpeg_def ext_clip_mp4 root_clip_mp4
      ext_notes_xyz audio_ext_def video_ext_def)

text \<open>
  Claim C10. The search for the transcoder comes before the classification of the
  extension: without the transcoder every path fails with the missing-tool exception,
  also an audio path that is returned unchanged once the transcoder is there.
\<close>

theorem transcoder_checked_first:
  "\<not> ffmpeg_on_path env \<Longrightarrow>
     convert_file_if_needed env p = Inl (FileNotFoundError ffmpeg_missing_message)
     \<and> (lower (snd (splitext p)) \<in> set audio_ext \<longrightarrow>
          convert_file_if_needed (env\<lparr>ffmpeg_on_path := True\<rparr>) p = Inr (Some p))"
  by (simp add: convert_file_if_needed_def Let_def)

theorem transcoder_checked_first_witness:
  "\<not> ffmpeg_on_path no_ffmpeg
   \<and> lower (snd (splitext ''song.wav'')) \<in> set audio_ext
   \<and> convert_file_if_needed no_ffmpeg ''song.wav'' = Inl (FileNotFoundError ffmpeg_missing_message)
   \<and> convert_file_if_needed (no_ffmpeg\<lparr>ffmpeg_on_path := True\<rparr>) ''song.wav''
       = Inr (Some ''song.wav'')"
  using transcoder_checked_first [of no_ffmpeg "''song.wav''"]
  by (simp add: no_ffmpeg_def ext_song_wav audio_ext_def)

section \<open>The recommendation\<close>

lemma vram_choice_table: "vram_choice v = decision_table (Some v) a"
  by (simp add: vram_choice_def decision_table_def)

lemma guarded_gpu:
  "cuda_probe p = Inr True \<Longrightarrow> device_name p = Inr n \<Longrightarrow> device_total_memory p = Inr m \<Longrightarrow>
   guarded_probe p s =
     (decision_table (Some (round2 (gib m))) a,
      s\<lparr>gpu := Some n, vram := Some (round2 (gib m))\<rparr>)"
  by (simp add: guarded_probe_def vram_choice_table [of _ a])

lemma guarded_cpu:
  "cuda_probe p = Inr False \<Longrightarrow> vm_available p = Inr a \<Longrightarrow>
   guarded_probe p s = (decision_table None (gib a), s)"
  by (simp add: guarded_probe_def decision_table_def)

lemma guarded_failure:
  "cuda_probe p = Inl e
   \<or> cuda_probe p = Inr True \<and> (device_name p = Inl e \<or> device_total_memory p = Inl e)
   \<or> cuda_probe p = Inr False \<and> vm_available p = Inl e \<Longrightarrow>
   fst (guarded_probe p s) = ''tiny''"
  by (auto simp: guarded_probe_def split: sum.splits bool.splits)

lemma round2_8gib: "round2 (gib 8589934592) = 8"
  by (simp add: round2_def gib_def round_half_even_def)

lemma gib_12: "gib 12884901888 = 12"
  by (simp add: gib_def)

text \<open>
  Claim C8, as the code has it. Once the core count and the total memory are read, the
  recommendation is the decision table on the video memory of the profile (the device's
  memory in GB, rounded to two decimals) with a GPU, and on the available main memory in
  GB without one; an exception of a probe inside the guarded block (GPU availability,
  device name, device memory, available memory) gives \<^verbatim>\<open>tiny\<close>. An exception while
  reading the core count or the total memory, which happens before the guarded block,
  leaves the function: there is no recommendation.
\<close>

theorem recommendation_table:
  "(cpu_count p = Inr c \<and> vm_total p = Inr t \<longrightarrow>
      (\<exists>r s. check_recommended_model p = Inr (r, s)
         \<and> (cuda_probe p = Inr True \<and> device_name p = Inr n \<and> device_total_memory p = Inr m
              \<longrightarrow> vram s = Some (round2 (gib m)) \<and> r = decision_table (vram s) x)
         \<and> (cuda_probe p = Inr False \<and> vm_available p = Inr a
              \<longrightarrow> vram s = None \<and> r = decision_table (vram s) (gib a))
         \<and> (cuda_probe p = Inl e
             \<or> cuda_probe p = Inr True \<and> (device_name p = Inl e \<or> device_total_memory p = Inl e)
             \<or> cuda_probe p = Inr False \<and> vm_available p = Inl e
              \<longrightarrow> r = ''tiny'')))
   \<and> (cpu_count p = Inl e \<or> cpu_count p = Inr c \<and> vm_total p = Inl e
        \<longrightarrow> check_recommended_model p = Inl e)"
proof -
  let ?s0 = "\<lparr>cpu = c, ram = round2 (gib t), gpu = None, vram = None\<rparr>"
  have ok: "check_recommended_model p = Inr (guarded_probe p ?s0)"
    if "cpu_count p = Inr c" "vm_total p = Inr t"
    using that by (simp add: check_recommended_model_def)
  have g: "snd (guarded_probe p ?s0) = ?s0\<lparr>gpu := Some n, vram := Some (round2 (gib m))\<rparr>
           \<and> fst (guarded_probe p ?s0) = decision_table (Some (round2 (gib m))) x"
    if "cuda_probe p = Inr True" "device_name p = Inr n" "device_total_memory p = Inr m"
    using guarded_gpu [OF that, of ?s0 x] by simp
  have r: "snd (guarded_probe p ?s0) = ?s0
           \<and> fst (guarded_probe p ?s0) = decision_table None (gib a)"
    if "cuda_probe p = Inr False" "vm_available p = Inr a"
    using guarded_cpu [OF that, of ?s0] by simp
  have f: "fst (guarded_probe p ?s0) = ''tiny''"
    if "cuda_probe p = Inl e
        \<or> cuda_probe p = Inr True \<and> (device_name p = Inl e \<or> device_total_memory p = Inl e)
        \<or> cuda_probe p = Inr False \<and> vm_available p = Inl e"
    using guarded_failure [OF that] .
  have first: "\<exists>r s. check_recommended_model p = Inr (r, s)
         \<and> (cuda_probe p = Inr True \<and> device_name p = Inr n \<and> device_total_memory p = Inr m
              \<longrightarrow> vram s = Some (round2 (gib m)) \<and> r = decision_table (vram s) x)
         \<and> (cuda_probe p = Inr False \<and> vm_available p = Inr a
              \<longrightarrow> vram s = None \<and> r = decision_table (vram s) (gib a))
         \<and> (cuda_probe p = Inl e
             \<or> cuda_probe p = Inr True \<and> (device_name p = Inl e \<or> device_total_memory p = Inl e)
             \<or> cuda_probe p = Inr False \<and> vm_available p = Inl e
              \<longrightarrow> r = ''tiny'')"
    if h: "cpu_count p = Inr c" "vm_total p = Inr t"
  proof (intro exI conjI impI)
    show "check_recommended_model p
            = Inr (fst (guarded_probe p ?s0), snd (guarded_probe p ?s0))"
      using ok [OF h] by simp
  qed (use g r f in \<open>simp_all\<close>)
  have second: "check_recommended_model p = Inl e"
    if "cpu_count p = Inl e \<or> cpu_count p = Inr c \<and> vm_total p = Inl e"
    using that by (auto simp: check_recommended_model_def)
  from first second show ?thesis by blast
qed

theorem recommendation_table_witness:
  "cpu_count gpu_8gb = Inr (Some 4) \<and> vm_total gpu_8gb = Inr 17179869184
   \<and> cuda_probe gpu_8gb = Inr True \<and> device_name gpu_8gb = Inr ''GPU''
   \<and> device_total_memory gpu_8gb = Inr 8589934592
   \<and> (\<exists>s. check_recommended_model gpu_8gb = Inr (''large'', s) \<and> vram s = Some 8)
   \<and> cpu_count cpu_16gb = Inr (Some 4) \<and> vm_total cpu_16gb = Inr 17179869184
   \<and> cuda_probe cpu_16gb = Inr False \<and> vm_available cpu_16gb = Inr 12884901888
   \<and> (\<exists>s. check_recommended_model cpu_16gb = Inr (''small'', s) \<and> vram s = None)
   \<and> cpu_count no_meminfo = Inr (Some 4) \<and> vm_total no_meminfo = Inl ''OSError''
   \<and> check_recommended_model no_meminfo = Inl ''OSError''"
  using recommendation_table
      [of gpu_8gb "Some 4" 17179869184 "''GPU''" 8589934592 0 0 "''''"]
    recommendation_table
      [of cpu_16gb "Some 4" 17179869184 "''''" 0 0 12884901888 "''''"]
    recommendation_table
      [of no_meminfo "Some 4" 0 "''''" 0 0 0 "''OSError''"]
  by (auto simp: gpu_8gb_def cpu_16gb_def no_meminfo_def round2_8gib gib_12 decision_table_def)

text \<open>
  Claim C8 as stated fails: when reading the total memory raises, the function raises
  too and recommends nothing, \<^verbatim>\<open>tiny\<close> included.
\<close>

theorem unguarded_probe_failure:
  "vm_total no_meminfo = Inl ''OSError''
   \<and> check_recommended_model no_meminfo = Inl ''OSError''"
  by (simp add: no_meminfo_def check_recommended_model_def)

section \<open>The model cache\<close>

lemma load_model_hit:
  "loaded_model mm = Some m \<Longrightarrow> current_model_name mm = Some x \<Longrightarrow>
   load_model env mm x cb = (Inr m, mm, [])"
  by (simp add: load_model_def)

lemma full_load_ok:
  "full_load env mm x cb = (Inr m, mm', acts) \<Longrightarrow>
   loaded_model mm' = Some m \<and> current_model_name mm' = Some x"
  by (auto simp: full_load_def Let_def split: sum.splits)

lemma full_load_fail:
  "full_load env mm x cb = (Inl e, mm', acts) \<Longrightarrow> mm' = mm"
  by (auto simp: full_load_def Let_def split: sum.splits)

lemma load_model_ok:
  "load_model env mm x cb = (Inr m, mm', acts) \<Longrightarrow>
   loaded_model mm' = Some m \<and> current_model_name mm' = Some x"
  by (auto simp: load_model_def split: option.splits if_splits dest: full_load_ok)

lemma load_model_fail:
  "load_model env mm x cb = (Inl e, mm', acts) \<Longrightarrow> mm' = mm"
  by (auto simp: load_model_def split: option.splits if_splits dest: full_load_fail)

lemma load_base_good:
  "load_model good_env model_manager_init ''base'' True =
     (Inr ''weights of base'',
      \<lparr>loaded_model = Some ''weights of base'', current_model_name = Some ''base''\<rparr>,
      [Callback 0, SelectDevice Cpu, WhisperLoad ''base'' Cpu, Callback 100])"
  by (simp add: load_model_def full_load_def good_env_def model_manager_init_def)

lemma load_base_offline:
  "load_model offline_env model_manager_init ''base'' True =
     (Inl ''download failed'', model_manager_init,
      [Callback 0, SelectDevice Cpu, WhisperLoad ''base'' Cpu])"
  by (simp add: load_model_def full_load_def offline_env_def model_manager_init_def)

text \<open>
  Claim C2, as the code has it. When the requested identifier is the one of the loaded
  model, \<^verbatim>\<open>load_model\<close> returns that model at once and leaves the manager as it is: it
  selects no device, loads no weights and does not call the progress callback at all. So
  of two consecutive loads of one identifier the second, after a first that returned a
  model, does nothing but return it, whatever the environment and the callback.
\<close>

theorem cache_hit_is_silent:
  "(loaded_model mm = Some m \<and> current_model_name mm = Some x \<longrightarrow>
      load_model env mm x cb = (Inr m, mm, []))
   \<and> (load_model env mm x cb = (Inr m, mm', acts) \<longrightarrow>
      load_model env' mm' x cb' = (Inr m, mm', []))"
proof (intro conjI impI)
  assume "loaded_model mm = Some m \<and> current_model_name mm = Some x"
  then show "load_model env mm x cb = (Inr m, mm, [])"
    by (simp add: load_model_hit)
next
  assume "load_model env mm x cb = (Inr m, mm', acts)"
  then have "loaded_model mm' = Some m \<and> current_model_name mm' = Some x"
    by (rule load_model_ok)
  then show "load_model env' mm' x cb' = (Inr m, mm', [])"
    by (simp add: load_model_hit)
qed

theorem cache_hit_is_silent_witness:
  "load_model good_env model_manager_init ''base'' True =
     (Inr ''weights of base'',
      \<lparr>loaded_model = Some ''weights of base'', current_model_name = Some ''base''\<rparr>,
      [Callback 0, SelectDevice Cpu, WhisperLoad ''base'' Cpu, Callback 100])
   \<and> load_model good_env
       \<lparr>loaded_model = Some ''weights of base'', current_model_name = Some ''base''\<rparr>
       ''base'' True =
     (Inr ''weights of base'',
      \<lparr>loaded_model = Some ''weights of base'', current_model_name = Some ''base''\<rparr>, [])"
  using cache_hit_is_silent [of model_manager_init "''weights of base''" "''base''" good_env True
      "\<lparr>loaded_model = Some ''weights of base'', current_model_name = Some ''base''\<rparr>"
      "[Callback 0, SelectDevice Cpu, WhisperLoad ''base'' Cpu, Callback 100]" good_env True]
    load_base_good
  by simp

text \<open>
  Claim C2 as stated fails: after a first load of \<^verbatim>\<open>base\<close>, a second one calls the
  callback it is given neither with 0 nor with 100.
\<close>

theorem cache_hit_reports_no_progress:
  "fst (snd (load_model good_env model_manager_init ''base'' True))
     = \<lparr>loaded_model = Some ''weights of base'', current_model_name = Some ''base''\<rparr>
   \<and> callbacks (snd (snd (load_model good_env
       \<lparr>loaded_model = Some ''weights of base'', current_model_name = Some ''base''\<rparr>
       ''base'' True))) = []
   \<and> callbacks (snd (snd (load_model good_env
       \<lparr>loaded_model = Some ''weights of base'', current_model_name = Some ''base''\<rparr>
       ''base'' True))) \<noteq> [0, 100]"
  by (simp add: load_base_good) (simp add: load_model_def)

lemma load_sequence_append:
  "load_sequence mm (cs @ ds) =
     (case load_sequence mm cs of (mm1, rs1) \<Rightarrow>
        (case load_sequence mm1 ds of (mm2, rs2) \<Rightarrow> (mm2, rs1 @ rs2)))"
  by (induction cs arbitrary: mm) (auto split: prod.splits)

lemma last_loaded_append:
  "last_loaded (rs @ ss) = (case last_loaded ss of Some x \<Rightarrow> Some x | None \<Rightarrow> last_loaded rs)"
  by (induction rs) (auto split: option.splits sum.splits)

lemma load_sequence_state:
  "load_sequence mm calls = (mm', rs) \<Longrightarrow>
   (case last_loaded rs of
      Some (x, m) \<Rightarrow> loaded_model mm' = Some m \<and> current_model_name mm' = Some x
    | None \<Rightarrow> mm' = mm)"
proof (induction calls arbitrary: mm mm' rs)
  case Nil
  then show ?case by simp
next
  case (Cons c calls)
  obtain env x cb where c: "c = (env, x, cb)" by (cases c)
  obtain r mm1 acts where l: "load_model env mm x cb = (r, mm1, acts)"
    by (cases "load_model env mm x cb")
  obtain mm2 rs2 where s: "load_sequence mm1 calls = (mm2, rs2)"
    by (cases "load_sequence mm1 calls")
  from Cons.prems c l s have eq: "mm' = mm2" "rs = (x, r) # rs2" by auto
  from Cons.IH [OF s] have ih: "case last_loaded rs2 of
      Some (x, m) \<Rightarrow> loaded_model mm2 = Some m \<and> current_model_name mm2 = Some x
    | None \<Rightarrow> mm2 = mm1" .
  show ?case
  proof (cases "last_loaded rs2")
    case (Some a)
    with ih eq show ?thesis by (auto split: prod.splits)
  next
    case None
    with ih have m2: "mm2 = mm1" by simp
    show ?thesis
    proof (cases r)
      case (Inl e)
      with l have "mm1 = mm" by (auto dest: load_model_fail)
      with None Inl m2 eq show ?thesis by simp
    next
      case (Inr m)
      with l have "loaded_model mm1 = Some m \<and> current_model_name mm1 = Some x"
        by (auto dest: load_model_ok)
      with None Inr m2 eq show ?thesis by simp
    qed
  qed
qed

text \<open>
  Claim C9. After any sequence of loads on a fresh manager, the slot of the loaded model
  and the field of the current identifier are those of the last call that returned a
  model, and both are empty if no call did: the manager holds one model at most, a load
  of another identifier replaces it, and a failed load changes nothing.
\<close>

theorem single_loaded_model:
  "load_sequence model_manager_init calls = (mm, rs) \<Longrightarrow>
   (case last_loaded rs of
      Some (x, m) \<Rightarrow> loaded_model mm = Some m \<and> current_model_name mm = Some x
    | None \<Rightarrow> loaded_model mm = None \<and> current_model_name mm = None)"
  using load_sequence_state [of model_manager_init calls mm rs]
  by (auto simp: model_manager_init_def split: option.splits)

lemma three_loads:
  "load_sequence model_manager_init
     [(good_env, ''base'', True), (good_env, ''small'', False), (offline_env, ''large'', True)]
   = (\<lparr>loaded_model = Some ''weights of small'', current_model_name = Some ''small''\<rparr>,
      [(''base'', Inr ''weights of base''), (''small'', Inr ''weights of small''),
       (''large'', Inl ''download failed'')])"
  by (simp add: load_model_def full_load_def good_env_def offline_env_def model_manager_init_def)

theorem single_loaded_model_witness:
  "load_sequence model_manager_init
     [(good_env, ''base'', True), (good_env, ''small'', False), (offline_env, ''large'', True)]
   = (\<lparr>loaded_model = Some ''weights of small'', current_model_name = Some ''small''\<rparr>,
      [(''base'', Inr ''weights of base''), (''small'', Inr ''weights of small''),
       (''large'', Inl ''download failed'')])
   \<and> last_loaded [(''base'', Inr ''weights of base''), (''small'', Inr ''weights of small''),
        (''large'', Inl ''download failed'' :: string + string)]
       = Some (''small'', ''weights of small'')
   \<and> loaded_model
        \<lparr>loaded_model = Some ''weights of small'', current_model_name = Some ''small''\<rparr>
       = Some ''weights of small''"
proof (intro conjI)
  show "load_sequence model_manager_init
     [(good_env, ''base'', True), (good_env, ''small'', False), (offline_env, ''large'', True)]
   = (\<lparr>loaded_model = Some ''weights of small'', current_model_name = Some ''small''\<rparr>,
      [(''base'', Inr ''weights of base''), (''small'', Inr ''weights of small''),
       (''large'', Inl ''download failed'')])"
    by (rule three_loads)
  show "last_loaded [(''base'', Inr ''weights of base''), (''small'', Inr ''weights of small''),
        (''large'', Inl ''download failed'' :: string + string)]
       = Some (''small'', ''weights of small'')"
    by simp
  show "loaded_model
        \<lparr>loaded_model = Some ''weights of small'', current_model_name = Some ''small''\<rparr>
       = Some ''weights of small''"
    using single_loaded_model [OF three_loads] by simp
qed

section \<open>Marker files and the download slot\<close>

lemma model_path_plain: "take 1 x \<noteq> ''/'' \<Longrightarrow> model_path x = ''models/'' @ x @ ''.model''"
  by (cases x) (auto simp: model_path_def os_path_join_def cache_folder_def)

text \<open>
  Claim C7, as the code has it. Marking a model writes the ten characters
  \<^verbatim>\<open>downloaded\<close> to the one file \<^verbatim>\<open>models/<name>.model\<close> and leaves every other file as
  it was; the model then counts as downloaded, which is the presence of that file.
\<close>

theorem marker_file:
  "mark_model_as_downloaded fs x (model_path x) = Some ''downloaded''
   \<and> (\<forall>p. p \<noteq> model_path x \<longrightarrow> mark_model_as_downloaded fs x p = fs p)
   \<and> is_model_downloaded (mark_model_as_downloaded fs x) x
   \<and> is_model_downloaded fs' y = (model_path y \<in> dom fs')
   \<and> (take 1 x \<noteq> ''/'' \<longrightarrow> model_path x = ''models/'' @ x @ ''.model'')"
  by (simp add: mark_model_as_downloaded_def is_model_downloaded_def model_path_plain dom_def)

lemma model_path_tiny: "model_path ''tiny'' = ''models/tiny.model''"
  by (simp add: model_path_def os_path_join_def cache_folder_def)

lemma model_path_base: "model_path ''base'' = ''models/base.model''"
  by (simp add: model_path_def os_path_join_def cache_folder_def)

theorem marker_file_witness:
  "take 1 ''tiny'' \<noteq> ''/''
   \<and> ''models/base.model'' \<noteq> model_path ''tiny''
   \<and> model_path ''tiny'' = ''models/tiny.model''
   \<and> mark_model_as_downloaded Map.empty ''tiny'' ''models/tiny.model'' = Some ''downloaded''
   \<and> mark_model_as_downloaded Map.empty ''tiny'' ''models/base.model'' = None
   \<and> is_model_downloaded (mark_model_as_downloaded Map.empty ''tiny'') ''tiny''"
  using marker_file [of Map.empty "''tiny''" Map.empty "''tiny''"]
  by (simp add: model_path_tiny)

text \<open>
  Claim C7 as stated fails: the marker of \<^verbatim>\<open>tiny\<close> is not a file of zero bytes.
\<close>

theorem marker_not_empty:
  "mark_model_as_downloaded Map.empty ''tiny'' ''models/tiny.model'' = Some ''downloaded''
   \<and> length ''downloaded'' = 10
   \<and> mark_model_as_downloaded Map.empty ''tiny'' ''models/tiny.model'' \<noteq> Some ''''"
  by (simp add: mark_model_as_downloaded_def model_path_tiny)

lemma idle_start: "main_window_init 0 cpu_16gb Map.empty = Inr idle_window"
  by (simp add: main_window_init_def setup_model_lists_def check_recommended_model_def cpu_16gb_def guarded_probe_def
    ALL_MODELS_def is_model_downloaded_def idle_window_def combo_filled_def)

lemma tiny_download_succeeds:
  "fst (downloader_run good_env model_manager_init ''tiny'') =
     [ProgressUpdated 0, ProgressUpdated 0, ProgressUpdated 100, DownloadFinished True '''']"
  by (simp add: downloader_run_def load_model_def full_load_def good_env_def model_manager_init_def)

text \<open>
  Claim C5 on the code. The slot of \<^verbatim>\<open>downloadFinished\<close> marks the current entry of the
  box of models to download, which stays enabled during a download. Started for
  \<^verbatim>\<open>tiny\<close>, with the user moving the box to \<^verbatim>\<open>base\<close> before the download succeeds,
  it marks \<^verbatim>\<open>base\<close> and leaves \<^verbatim>\<open>tiny\<close> unmarked.
\<close>

theorem download_marks_current_selection:
  "main_window_init 0 cpu_16gb Map.empty = Inr idle_window
   \<and> downloader_thread (download_model idle_window) = Some ''tiny''
   \<and> fst (downloader_run good_env model_manager_init ''tiny'') =
       [ProgressUpdated 0, ProgressUpdated 0, ProgressUpdated 100, DownloadFinished True '''']
   \<and> currentText (combo_available (select_available 1 (download_model idle_window))) = ''base''
   \<and> \<not> is_model_downloaded
         (fst (on_download_finished cpu_16gb Map.empty
                 (select_available 1 (download_model idle_window)) True '''')) ''tiny''
   \<and> is_model_downloaded
         (fst (on_download_finished cpu_16gb Map.empty
                 (select_available 1 (download_model idle_window)) True '''')) ''base''"
  by (simp add: idle_start tiny_download_succeeds)
     (simp add: on_download_finished_def Let_def select_available_def download_model_def idle_window_def
      combo_filled_def ALL_MODELS_def setCurrentIndex_def currentText_def
      mark_model_as_downloaded_def is_model_downloaded_def model_path_tiny model_path_base)

section \<open>The stall watchdog\<close>

lemma monitor_ticks:
  "monitor w (map Tick ts) = filter (\<lambda>t. 20 < t - last_progress_update w) ts"
  by (induction ts) (simp_all add: check_progress_stuck_def)

text \<open>
  Claim C3, as the code has it. A tick shows the message exactly when more than 20
  seconds have passed since the last progress signal (or since the window was made),
  whether or not a thread exists; so with no progress in between, every tick past the
  threshold shows it again.
\<close>

theorem watchdog_every_tick:
  "monitor (w\<lparr>downloader_thread := d, transcription_thread := tr\<rparr>) (map Tick ts)
     = filter (\<lambda>t. 20 < t - last_progress_update w) ts
   \<and> monitor w (DownloadProgress t0 v # map Tick ts) = filter (\<lambda>t. 20 < t - t0) ts
   \<and> monitor w (TranscriptionProgress t0 v # map Tick ts) = filter (\<lambda>t. 20 < t - t0) ts"
  by (simp add: monitor_ticks on_download_progress_def on_transcription_progress_def)

theorem watchdog_every_tick_witness:
  "monitor (idle_window\<lparr>downloader_thread := Some ''tiny'', transcription_thread := None\<rparr>)
     (map Tick [19, 20, 21, 22]) = [21, 22]
   \<and> monitor idle_window (DownloadProgress 5 0 # map Tick [24, 25, 26, 27]) = [26, 27]"
  using watchdog_every_tick [where w = idle_window and d = "Some ''tiny''" and tr = None
      and ts = "[19, 20, 21, 22]" and ?t0.0 = 0 and v = 0]
    watchdog_every_tick [where w = idle_window and d = None and tr = None
      and ts = "[24, 25, 26, 27]" and ?t0.0 = 5 and v = 0]
  by (simp add: idle_window_def)

text \<open>
  Claim C3 as stated fails: in the window of a fresh start, where no job was ever
  started, the ticks of seconds 21 to 25 show the message five times.
\<close>

theorem watchdog_repeats_without_job:
  "main_window_init 0 cpu_16gb Map.empty = Inr idle_window
   \<and> downloader_thread idle_window = None
   \<and> transcription_thread idle_window = None
   \<and> monitor idle_window (map Tick [19, 20, 21, 22, 23, 24, 25]) = [21, 22, 23, 24, 25]"
  by (simp add: idle_start) (simp add: idle_window_def check_progress_stuck_def)

section \<open>The transcription thread\<close>

lemma returned_step: "pc th = Returned \<Longrightarrow> transcription_step env (th, mm) = (th, mm)"
  by (simp add: transcription_step_def)

lemma returned_steps: "pc th = Returned \<Longrightarrow> (transcription_step env ^^ n) (th, mm) = (th, mm)"
  by (induction n) (simp_all add: returned_step)

lemma steps3:
  assumes "load_model env mm name True = (r, mm', acts)"
  shows "(transcription_step env ^^ 3)
           (\<lparr>t_model_name = name, t_file_path = file, is_interrupted = b, pc = L180,
             emitted = [], recognizer_calls = []\<rparr>, mm)
         = (\<lparr>t_model_name = name, t_file_path = file, is_interrupted = b,
             pc = (case r of Inl e \<Rightarrow> Returned | Inr m \<Rightarrow> L184 m),
             emitted = ProgressUpdated 0 # map ProgressUpdated (callbacks acts)
                         @ [case r of Inl e \<Rightarrow> ErrorOccurred e | Inr m \<Rightarrow> ProgressUpdated 100],
             recognizer_calls = []\<rparr>, mm')"
  using assms by (cases r) (simp_all add: eval_nat_numeral transcription_step_def emit_def)

lemma steps5:
  "(transcription_step env ^^ 5)
     (\<lparr>t_model_name = name, t_file_path = file, is_interrupted = b, pc = L184 m,
       emitted = es, recognizer_calls = []\<rparr>, mm)
   = (\<lparr>t_model_name = name, t_file_path = file, is_interrupted = b, pc = Returned,
       emitted = es @ after_check b env m file,
       recognizer_calls = (if b then [] else [(file, cuda_is_available env)])\<rparr>, mm)"
  by (cases "transcribe env m file (cuda_is_available env)")
     (simp_all add: eval_nat_numeral transcription_step_def emit_def after_check_def Let_def)

lemma steps8:
  assumes "load_model env mm name True = (r, mm', acts)"
  shows "(transcription_step env ^^ 8)
           (\<lparr>t_model_name = name, t_file_path = file, is_interrupted = b, pc = L180,
             emitted = [], recognizer_calls = []\<rparr>, mm)
         = (\<lparr>t_model_name = name, t_file_path = file, is_interrupted = b, pc = Returned,
             emitted = run_signals env b mm name file,
             recognizer_calls = run_calls env b mm name file\<rparr>, mm')"
proof -
  have "(transcription_step env ^^ 8) s = (transcription_step env ^^ 5) ((transcription_step env ^^ 3) s)" for s
    using funpow_add [of 5 3 "transcription_step env"] by simp
  then show ?thesis
    using assms
    by (cases r) (simp_all add: steps3 [OF assms] steps5 returned_steps run_signals_def run_calls_def)
qed

lemma interrupt_state:
  "interrupt (\<lparr>t_model_name = name, t_file_path = file, is_interrupted = b, pc = p,
               emitted = es, recognizer_calls = cs\<rparr>, mm)
   = (\<lparr>t_model_name = name, t_file_path = file, is_interrupted = True, pc = p,
       emitted = es, recognizer_calls = cs\<rparr>, mm)"
  by (simp add: interrupt_def)

lemma step_interrupt_commute:
  "\<not> (\<exists>m. pc (fst s) = L184 m) \<Longrightarrow>
   transcription_step env (interrupt s) = interrupt (transcription_step env s)"
proof -
  assume a: "\<not> (\<exists>m. pc (fst s) = L184 m)"
  obtain th mm where s: "s = (th, mm)" by (cases s)
  show ?thesis
  proof (cases "pc th")
    case L181
    obtain r mm' acts where l: "load_model env mm (t_model_name th) True = (r, mm', acts)"
      by (cases "load_model env mm (t_model_name th) True")
    show ?thesis using L181 l s
      by (cases r) (simp_all add: transcription_step_def interrupt_def emit_def)
  next
    case (L192 m)
    show ?thesis using L192 s
      by (cases "transcribe env m (t_file_path th) (cuda_is_available env)")
         (simp_all add: transcription_step_def interrupt_def emit_def Let_def)
  next
    case (L184 m)
    with a s show ?thesis by simp
  qed (simp_all add: s transcription_step_def interrupt_def emit_def)
qed

lemma step_past_check:
  "past_check (pc (fst s)) \<Longrightarrow> past_check (pc (fst (transcription_step env s)))"
proof -
  assume a: "past_check (pc (fst s))"
  obtain th mm where s: "s = (th, mm)" by (cases s)
  show ?thesis
  proof (cases "pc th")
    case (L192 m)
    show ?thesis using L192 s
      by (cases "transcribe env m (t_file_path th) (cuda_is_available env)")
         (simp_all add: transcription_step_def emit_def Let_def)
  qed (use a s in \<open>simp_all add: transcription_step_def emit_def\<close>)
qed

lemma past_check_not_L184: "past_check p \<Longrightarrow> \<not> (\<exists>m. p = L184 m)"
  by (cases p) simp_all

lemma steps_past_check:
  "past_check (pc (fst s)) \<Longrightarrow> past_check (pc (fst ((transcription_step env ^^ n) s)))"
  by (induction n) (simp_all add: step_past_check)

lemma steps_interrupt_commute:
  "past_check (pc (fst s)) \<Longrightarrow>
   (transcription_step env ^^ n) (interrupt s) = interrupt ((transcription_step env ^^ n) s)"
proof (induction n)
  case 0
  then show ?case by simp
next
  case (Suc n)
  from Suc.prems have "past_check (pc (fst ((transcription_step env ^^ n) s)))"
    by (rule steps_past_check)
  then have "\<not> (\<exists>m. pc (fst ((transcription_step env ^^ n) s)) = L184 m)"
    by (rule past_check_not_L184)
  then show ?case
    using Suc by (simp add: step_interrupt_commute)
qed

lemma pc_step1:
  "pc (fst (transcription_step env (transcription_thread_init name file, mm))) = L181"
  by (simp add: transcription_thread_init_def transcription_step_def emit_def)

lemma pc_step2:
  "\<not> (\<exists>m. pc (fst (transcription_step env
        (transcription_step env (transcription_thread_init name file, mm)))) = L184 m)"
proof -
  obtain r mm' acts where l: "load_model env mm name True = (r, mm', acts)"
    by (cases "load_model env mm name True")
  then show ?thesis
    by (cases r) (simp_all add: transcription_thread_init_def transcription_step_def emit_def)
qed

lemma interrupt_before_check:
  assumes "k \<le> 3"
  shows "(transcription_step env ^^ (3 - k))
           (interrupt ((transcription_step env ^^ k) (transcription_thread_init name file, mm)))
         = (transcription_step env ^^ 3)
             (interrupt (transcription_thread_init name file, mm))"
proof -
  let ?s = "(transcription_thread_init name file, mm)"
  have c0: "transcription_step env (interrupt ?s) = interrupt (transcription_step env ?s)"
    by (rule step_interrupt_commute) (simp add: transcription_thread_init_def)
  have c1: "transcription_step env (interrupt (transcription_step env ?s))
              = interrupt (transcription_step env (transcription_step env ?s))"
    by (rule step_interrupt_commute) (simp add: pc_step1)
  have c2: "transcription_step env
              (interrupt (transcription_step env (transcription_step env ?s)))
              = interrupt (transcription_step env
                  (transcription_step env (transcription_step env ?s)))"
    by (rule step_interrupt_commute) (rule pc_step2)
  from assms consider "k = 0" | "k = 1" | "k = 2" | "k = 3" by linarith
  then show ?thesis
  proof cases
    case 1
    then show ?thesis by simp
  next
    case 2
    then show ?thesis by (simp add: eval_nat_numeral c0)
  next
    case 3
    then show ?thesis by (simp add: eval_nat_numeral c0 c1)
  next
    case 4
    then show ?thesis by (simp add: eval_nat_numeral c0 c1 c2)
  qed
qed

lemma four_steps_past_check:
  "past_check (pc (fst ((transcription_step env ^^ 4) (transcription_thread_init name file, mm))))"
proof -
  obtain r mm' acts where l: "load_model env mm name True = (r, mm', acts)"
    by (cases "load_model env mm name True")
  have "(transcription_step env ^^ 4) s = transcription_step env ((transcription_step env ^^ 3) s)"
    for s
    by (simp add: eval_nat_numeral)
  then show ?thesis
    by (cases r)
       (simp_all add: transcription_thread_init_def steps3 [OF l] transcription_step_def)
qed

lemma funpow_split: "(f ^^ (a + b)) x = (f ^^ a) ((f ^^ b) x)"
  by (simp add: funpow_add)

lemma run_never:
  assumes "load_model env mm name True = (r, mm', acts)"
  shows "transcription_run env None mm name file
         = (\<lparr>t_model_name = name, t_file_path = file, is_interrupted = False, pc = Returned,
             emitted = run_signals env False mm name file,
             recognizer_calls = run_calls env False mm name file\<rparr>, mm')"
  by (simp add: transcription_run_def transcription_thread_init_def steps8 [OF assms])

lemma run_early:
  assumes l: "load_model env mm name True = (r, mm', acts)" and k: "k \<le> 3"
  shows "transcription_run env (Some k) mm name file
         = (\<lparr>t_model_name = name, t_file_path = file, is_interrupted = True, pc = Returned,
             emitted = run_signals env True mm name file,
             recognizer_calls = run_calls env True mm name file\<rparr>, mm')"
proof -
  let ?s = "(transcription_thread_init name file, mm)"
  let ?f = "transcription_step env"
  from k have "8 - k = 5 + (3 - k)" by simp
  then have "(?f ^^ (8 - k)) (interrupt ((?f ^^ k) ?s))
               = (?f ^^ 5) ((?f ^^ (3 - k)) (interrupt ((?f ^^ k) ?s)))"
    by (simp only: funpow_split)
  also have "\<dots> = (?f ^^ 5) ((?f ^^ 3) (interrupt ?s))"
    by (simp only: interrupt_before_check [OF k])
  also have "\<dots> = (?f ^^ 8) (interrupt ?s)"
    using funpow_split [where f = ?f and a = 5 and b = 3 and x = "interrupt ?s"] by simp
  finally have "(?f ^^ (8 - k)) (interrupt ((?f ^^ k) ?s)) = (?f ^^ 8) (interrupt ?s)" .
  then have "transcription_run env (Some k) mm name file = (?f ^^ 8) (interrupt ?s)"
    by (simp add: transcription_run_def)
  also have "\<dots> = (\<lparr>t_model_name = name, t_file_path = file, is_interrupted = True, pc = Returned,
             emitted = run_signals env True mm name file,
             recognizer_calls = run_calls env True mm name file\<rparr>, mm')"
    by (simp add: transcription_thread_init_def interrupt_state steps8 [OF l])
  finally show ?thesis .
qed

lemma run_late:
  assumes "4 \<le> k"
  shows "transcription_run env (Some k) mm name file
         = interrupt (transcription_run env None mm name file)"
proof -
  let ?s = "(transcription_thread_init name file, mm)"
  let ?f = "transcription_step env"
  obtain r mm' acts where l: "load_model env mm name True = (r, mm', acts)"
    by (cases "load_model env mm name True")
  have done8: "pc (fst ((?f ^^ 8) ?s)) = Returned"
    by (simp add: transcription_thread_init_def steps8 [OF l])
  have p4: "past_check (pc (fst ((?f ^^ 4) ?s)))" by (rule four_steps_past_check)
  have pk: "past_check (pc (fst ((?f ^^ k) ?s)))"
  proof -
    from assms have "k = (k - 4) + 4" by simp
    then have "(?f ^^ k) ?s = (?f ^^ (k - 4)) ((?f ^^ 4) ?s)"
      using funpow_split [where f = ?f and a = "k - 4" and b = 4 and x = ?s] by simp
    with steps_past_check [OF p4, where n = "k - 4"] show ?thesis by simp
  qed
  have a: "(?f ^^ (8 - k)) (interrupt ((?f ^^ k) ?s))
        = interrupt ((?f ^^ (8 - k)) ((?f ^^ k) ?s))"
    by (rule steps_interrupt_commute [OF pk])
  have b: "(?f ^^ (8 - k)) ((?f ^^ k) ?s) = (?f ^^ 8) ?s"
  proof (cases "k \<le> 8")
    case True
    then have "(8 - k) + k = 8" by simp
    with funpow_split [where f = ?f and a = "8 - k" and b = k and x = ?s] show ?thesis by simp
  next
    case False
    then have e: "(k - 8) + 8 = k" by simp
    have "(?f ^^ k) ?s = (?f ^^ (k - 8)) ((?f ^^ 8) ?s)"
      using funpow_split [where f = ?f and a = "k - 8" and b = 8 and x = ?s] e by simp
    also have "\<dots> = (?f ^^ 8) ?s"
      using done8 returned_steps [where th = "fst ((?f ^^ 8) ?s)" and env = env and n = "k - 8"
          and mm = "snd ((?f ^^ 8) ?s)"]
      by simp
    finally show ?thesis using False by simp
  qed
  from a b show ?thesis by (simp add: transcription_run_def)
qed

lemma callbacks_full_load:
  "full_load env mm x True = (r, mm', acts) \<Longrightarrow>
   (case r of Inl e \<Rightarrow> callbacks acts = [0] | Inr m \<Rightarrow> callbacks acts = [0, 100])"
  by (auto simp: full_load_def Let_def split: sum.splits)

lemma callbacks_load_model:
  "load_model env mm x True = (r, mm', acts) \<Longrightarrow>
   (case r of
      Inl e \<Rightarrow> callbacks acts = [0]
    | Inr m \<Rightarrow> callbacks acts = [] \<or> callbacks acts = [0, 100])"
proof -
  assume a: "load_model env mm x True = (r, mm', acts)"
  show ?thesis
  proof (cases "\<exists>m. loaded_model mm = Some m \<and> current_model_name mm = Some x")
    case True
    with a show ?thesis by (auto simp: load_model_def)
  next
    case False
    with a have "full_load env mm x True = (r, mm', acts)"
      by (auto simp: load_model_def split: option.splits if_splits)
    from callbacks_full_load [OF this] show ?thesis by (cases r) simp_all
  qed
qed

lemma run_emitted:
  "emitted (fst (transcription_run env intr mm name file))
     = run_signals env (flag_at_check intr) mm name file"
proof -
  obtain r mm' acts where l: "load_model env mm name True = (r, mm', acts)"
    by (cases "load_model env mm name True")
  show ?thesis
  proof (cases intr)
    case None
    then show ?thesis by (simp add: run_never [OF l] flag_at_check_def)
  next
    case (Some k)
    show ?thesis
    proof (cases "k \<le> 3")
      case True
      with Some show ?thesis by (simp add: run_early [OF l True] flag_at_check_def)
    next
      case False
      then have "4 \<le> k" by simp
      with Some False show ?thesis
        by (simp add: run_late run_never [OF l] interrupt_state flag_at_check_def)
    qed
  qed
qed

lemma run_recognizer_calls:
  "recognizer_calls (fst (transcription_run env intr mm name file))
     = run_calls env (flag_at_check intr) mm name file"
proof -
  obtain r mm' acts where l: "load_model env mm name True = (r, mm', acts)"
    by (cases "load_model env mm name True")
  show ?thesis
  proof (cases intr)
    case None
    then show ?thesis by (simp add: run_never [OF l] flag_at_check_def)
  next
    case (Some k)
    show ?thesis
    proof (cases "k \<le> 3")
      case True
      with Some show ?thesis by (simp add: run_early [OF l True] flag_at_check_def)
    next
      case False
      then have "4 \<le> k" by simp
      with Some False show ?thesis
        by (simp add: run_late run_never [OF l] interrupt_state flag_at_check_def)
    qed
  qed
qed

lemma run_returns: "pc (fst (transcription_run env intr mm name file)) = Returned"
proof -
  obtain r mm' acts where l: "load_model env mm name True = (r, mm', acts)"
    by (cases "load_model env mm name True")
  show ?thesis
  proof (cases intr)
    case None
    then show ?thesis by (simp add: run_never [OF l])
  next
    case (Some k)
    show ?thesis
    proof (cases "k \<le> 3")
      case True
      with Some show ?thesis by (simp add: run_early [OF l True])
    next
      case False
      then have "4 \<le> k" by simp
      with Some show ?thesis by (simp add: run_late run_never [OF l] interrupt_state)
    qed
  qed
qed

lemma run_manager:
  "snd (transcription_run env intr mm name file) = fst (snd (load_model env mm name True))"
proof -
  obtain r mm' acts where l: "load_model env mm name True = (r, mm', acts)"
    by (cases "load_model env mm name True")
  show ?thesis
  proof (cases intr)
    case None
    then show ?thesis by (simp add: run_never [OF l] l)
  next
    case (Some k)
    show ?thesis
    proof (cases "k \<le> 3")
      case True
      with Some show ?thesis by (simp add: run_early [OF l True] l)
    next
      case False
      then have "4 \<le> k" by simp
      with Some show ?thesis by (simp add: run_late run_never [OF l] interrupt_state l)
    qed
  qed
qed

lemma after_check_shape:
  "\<exists>ps t. after_check flag env m file = map ProgressUpdated ps @ [t] \<and> is_terminal t
     \<and> (ps = [] \<or> ps = [50] \<or> ps = [50, 100]) \<and> (flag \<longrightarrow> ps = []) \<and> (\<not> flag \<longrightarrow> ps \<noteq> [])"
proof (cases flag)
  case True
  then have "after_check flag env m file = map ProgressUpdated [] @ [ErrorOccurred interrupted_message]"
    by (simp add: after_check_def)
  with True show ?thesis by (metis is_terminal.simps(4))
next
  case False
  show ?thesis
  proof (cases "transcribe env m file (cuda_is_available env)")
    case (Inl e)
    with False have "after_check flag env m file = map ProgressUpdated [50] @ [ErrorOccurred e]"
      by (simp add: after_check_def)
    with False show ?thesis by (intro exI [of _ "[50]"] exI [of _ "ErrorOccurred e"]) simp
  next
    case (Inr res)
    with False have "after_check flag env m file
        = map ProgressUpdated [50, 100]
            @ [TranscriptionFinished (case res of Some t \<Rightarrow> t | None \<Rightarrow> '''')]"
      by (simp add: after_check_def)
    with False show ?thesis
      by (intro exI [of _ "[50, 100]"]
          exI [of _ "TranscriptionFinished (case res of Some t \<Rightarrow> t | None \<Rightarrow> '''')"]) simp
  qed
qed

lemma run_signals_shape:
  "\<exists>ps t. run_signals env flag mm name file = map ProgressUpdated ps @ [t] \<and> is_terminal t
     \<and> sorted ps = (50 \<notin> set ps)"
proof -
  obtain r mm' acts where l: "load_model env mm name True = (r, mm', acts)"
    by (cases "load_model env mm name True")
  show ?thesis
  proof (cases r)
    case (Inl e)
    with callbacks_load_model [OF l] have c: "callbacks acts = [0]" by simp
    with l Inl have "run_signals env flag mm name file = map ProgressUpdated [0, 0] @ [ErrorOccurred e]"
      by (simp add: run_signals_def)
    then show ?thesis by (intro exI [of _ "[0, 0]"] exI [of _ "ErrorOccurred e"]) simp
  next
    case (Inr m)
    with callbacks_load_model [OF l] have c: "callbacks acts = [] \<or> callbacks acts = [0, 100]"
      by simp
    obtain qs t where a: "after_check flag env m file = map ProgressUpdated qs @ [t]"
      and t: "is_terminal t" and q: "qs = [] \<or> qs = [50] \<or> qs = [50, 100]"
      using after_check_shape [of flag env m "file"] by blast
    from l Inr a have "run_signals env flag mm name file
        = map ProgressUpdated (0 # callbacks acts @ 100 # qs) @ [t]"
      by (simp add: run_signals_def)
    moreover from c q have "sorted (0 # callbacks acts @ 100 # qs)
        = (50 \<notin> set (0 # callbacks acts @ 100 # qs))"
      by auto
    ultimately show ?thesis using t by blast
  qed
qed

lemma downloader_shape:
  "\<exists>ps t. fst (downloader_run env mm x) = map ProgressUpdated ps @ [t] \<and> is_terminal t
     \<and> sorted ps"
proof -
  obtain r mm' acts where l: "load_model env mm x True = (r, mm', acts)"
    by (cases "load_model env mm x True")
  let ?t = "case r of Inr model \<Rightarrow> DownloadFinished True '''' | Inl e \<Rightarrow> DownloadFinished False e"
  from l have e: "fst (downloader_run env mm x) = map ProgressUpdated (0 # callbacks acts) @ [?t]"
    by (simp add: downloader_run_def)
  have t: "is_terminal ?t" by (cases r) simp_all
  from callbacks_load_model [OF l] have "sorted (0 # callbacks acts)"
    by (cases r) auto
  with e t show ?thesis by blast
qed

lemma flag_at_check_iff: "(\<not> flag_at_check intr) = (\<forall>k. intr = Some k \<longrightarrow> 4 \<le> k)"
  by (cases intr) (auto simp: flag_at_check_def)

lemma run_signals_fifty:
  "\<exists>ps t. run_signals env flag mm name file = map ProgressUpdated ps @ [t] \<and> is_terminal t
     \<and> sorted ps = (50 \<notin> set ps)
     \<and> (50 \<in> set ps) = ((\<exists>m. fst (load_model env mm name True) = Inr m) \<and> \<not> flag)
     \<and> (50 \<in> set ps \<longrightarrow> (\<exists>qs rs. ps = qs @ [100, 50] @ rs))"
proof -
  obtain r mm' acts where l: "load_model env mm name True = (r, mm', acts)"
    by (cases "load_model env mm name True")
  show ?thesis
  proof (cases r)
    case (Inl e)
    with callbacks_load_model [OF l] have c: "callbacks acts = [0]" by simp
    with l Inl have "run_signals env flag mm name file
        = map ProgressUpdated [0, 0] @ [ErrorOccurred e]"
      by (simp add: run_signals_def)
    with l Inl show ?thesis
      by (intro exI [of _ "[0, 0]"] exI [of _ "ErrorOccurred e"]) simp
  next
    case (Inr m)
    with callbacks_load_model [OF l] have c: "callbacks acts = [] \<or> callbacks acts = [0, 100]"
      by simp
    obtain qs t where a: "after_check flag env m file = map ProgressUpdated qs @ [t]"
      and t: "is_terminal t" and q: "qs = [] \<or> qs = [50] \<or> qs = [50, 100]"
      and f1: "flag \<longrightarrow> qs = []" and f2: "\<not> flag \<longrightarrow> qs \<noteq> []"
      using after_check_shape [of flag env m "file"] by blast
    let ?ps = "0 # callbacks acts @ 100 # qs"
    from l Inr a have e: "run_signals env flag mm name file = map ProgressUpdated ?ps @ [t]"
      by (simp add: run_signals_def)
    from c q have s: "sorted ?ps = (50 \<notin> set ?ps)" by auto
    from c q f1 f2 have w: "(50 \<in> set ?ps) = (\<not> flag)" by auto
    have d: "\<exists>us rs. ?ps = us @ [100, 50] @ rs" if "50 \<in> set ?ps"
    proof -
      from that c q have "qs = 50 # tl qs" by auto
      then have "?ps = (0 # callbacks acts) @ [100, 50] @ tl qs" by simp
      then show ?thesis by blast
    qed
    from l Inr have ld: "\<exists>m. fst (load_model env mm name True) = Inr m" by simp
    from e t s w d ld show ?thesis by blast
  qed
qed

lemma run_calls_nonempty:
  "(run_calls env flag mm name file \<noteq> [])
     = ((\<exists>m. fst (load_model env mm name True) = Inr m) \<and> \<not> flag)"
proof -
  obtain r mm' acts where l: "load_model env mm name True = (r, mm', acts)"
    by (cases "load_model env mm name True")
  then show ?thesis by (cases r) (simp_all add: run_calls_def)
qed

text \<open>
  Claim C1, as the code has it. Every run of either thread emits progress signals and
  then one terminal signal, which is the last; the transcription thread always returns.
  The percentages of a download never decrease. Those of a transcription never decrease
  exactly when the run does not emit the 50 of line 189. It emits that 50 exactly when
  the load returns a model and \<^verbatim>\<open>interrupt\<close> does not come before the test of line 184,
  which are also exactly the runs that call the recognizer; and then a 100, the one of
  line 183, comes immediately before the 50.
\<close>

theorem job_event_order:
  "(\<exists>ps t. fst (downloader_run env mm x) = map ProgressUpdated ps @ [t] \<and> is_terminal t
      \<and> sorted ps)
   \<and> (\<exists>ps t. emitted (fst (transcription_run env intr mm x f)) = map ProgressUpdated ps @ [t]
      \<and> is_terminal t \<and> sorted ps = (50 \<notin> set ps)
      \<and> (50 \<in> set ps)
          = ((\<exists>m. fst (load_model env mm x True) = Inr m) \<and> (\<forall>k. intr = Some k \<longrightarrow> 4 \<le> k))
      \<and> (50 \<in> set ps \<longrightarrow> (\<exists>qs rs. ps = qs @ [100, 50] @ rs)))
   \<and> (recognizer_calls (fst (transcription_run env intr mm x f)) \<noteq> [])
       = ((\<exists>m. fst (load_model env mm x True) = Inr m) \<and> (\<forall>k. intr = Some k \<longrightarrow> 4 \<le> k))
   \<and> pc (fst (transcription_run env intr mm x f)) = Returned"
  using downloader_shape [of env mm x] run_signals_fifty [of env "flag_at_check intr" mm x f]
    run_calls_nonempty [of env "flag_at_check intr" mm x f]
  by (simp add: run_emitted run_recognizer_calls run_returns flag_at_check_iff)

lemma after_check_last:
  "last (after_check True env m f) = ErrorOccurred interrupted_message"
  by (simp add: after_check_def)

lemma after_check_not_interrupted:
  "last (after_check False env m f)
     = (case transcribe env m f (cuda_is_available env) of
          Inl e \<Rightarrow> ErrorOccurred e
        | Inr result \<Rightarrow> TranscriptionFinished (case result of Some t \<Rightarrow> t | None \<Rightarrow> ''''))"
  by (cases "transcribe env m f (cuda_is_available env)") (simp_all add: after_check_def)

text \<open>
  Claim C6, as the code has it. The flag is read once, at line 184, after the model is
  loaded and the 100 of line 183 is emitted. When the load returns a model and
  \<^verbatim>\<open>interrupt\<close> comes before that test, the run ends with that 100 followed by the
  interruption error and never calls the recognizer. When the load fails, the run ends
  with the error of the load, interrupted or not. When the load returns a model and
  \<^verbatim>\<open>interrupt\<close> comes after the test or never, the run calls the recognizer once and
  ends with the outcome of that call, its text or its error; and with \<^verbatim>\<open>interrupt\<close>
  after the test the signals, the calls of the recognizer and the manager are those of
  the run that is never interrupted.
\<close>

theorem interrupt_window:
  "(fst (load_model env mm x True) = Inr m \<and> k \<le> 3 \<longrightarrow>
      last (emitted (fst (transcription_run env (Some k) mm x f))) = ErrorOccurred interrupted_message
      \<and> (\<exists>es. emitted (fst (transcription_run env (Some k) mm x f))
                 = es @ [ProgressUpdated 100, ErrorOccurred interrupted_message])
      \<and> recognizer_calls (fst (transcription_run env (Some k) mm x f)) = [])
   \<and> (fst (load_model env mm x True) = Inl e \<longrightarrow>
      last (emitted (fst (transcription_run env intr mm x f))) = ErrorOccurred e
      \<and> recognizer_calls (fst (transcription_run env intr mm x f)) = [])
   \<and> (fst (load_model env mm x True) = Inr m \<and> (\<forall>j. intr = Some j \<longrightarrow> 4 \<le> j) \<longrightarrow>
      last (emitted (fst (transcription_run env intr mm x f)))
        = (case transcribe env m f (cuda_is_available env) of
             Inl e' \<Rightarrow> ErrorOccurred e'
           | Inr result \<Rightarrow>
               TranscriptionFinished (case result of Some t \<Rightarrow> t | None \<Rightarrow> ''''))
      \<and> recognizer_calls (fst (transcription_run env intr mm x f))
        = [(f, cuda_is_available env)])
   \<and> (4 \<le> k \<longrightarrow>
      emitted (fst (transcription_run env (Some k) mm x f))
        = emitted (fst (transcription_run env None mm x f))
      \<and> recognizer_calls (fst (transcription_run env (Some k) mm x f))
        = recognizer_calls (fst (transcription_run env None mm x f))
      \<and> snd (transcription_run env (Some k) mm x f) = snd (transcription_run env None mm x f))"
proof (intro conjI impI)
  assume a: "fst (load_model env mm x True) = Inr m \<and> k \<le> 3"
  then obtain mm' acts where l: "load_model env mm x True = (Inr m, mm', acts)"
    by (cases "load_model env mm x True") auto
  from a have fl: "flag_at_check (Some k)" by (simp add: flag_at_check_def)
  show "last (emitted (fst (transcription_run env (Some k) mm x f)))
          = ErrorOccurred interrupted_message"
    by (simp add: run_emitted fl run_signals_def l after_check_def)
  have "emitted (fst (transcription_run env (Some k) mm x f))
          = (ProgressUpdated 0 # map ProgressUpdated (callbacks acts))
              @ [ProgressUpdated 100, ErrorOccurred interrupted_message]"
    by (simp add: run_emitted fl run_signals_def l after_check_def)
  then show "\<exists>es. emitted (fst (transcription_run env (Some k) mm x f))
                 = es @ [ProgressUpdated 100, ErrorOccurred interrupted_message]"
    by blast
  show "recognizer_calls (fst (transcription_run env (Some k) mm x f)) = []"
    by (simp add: run_recognizer_calls fl run_calls_def l)
next
  assume a: "fst (load_model env mm x True) = Inl e"
  then obtain mm' acts where l: "load_model env mm x True = (Inl e, mm', acts)"
    by (cases "load_model env mm x True") auto
  show "last (emitted (fst (transcription_run env intr mm x f))) = ErrorOccurred e"
    by (simp add: run_emitted run_signals_def l)
  show "recognizer_calls (fst (transcription_run env intr mm x f)) = []"
    by (simp add: run_recognizer_calls run_calls_def l)
next
  assume a: "fst (load_model env mm x True) = Inr m \<and> (\<forall>j. intr = Some j \<longrightarrow> 4 \<le> j)"
  then obtain mm' acts where l: "load_model env mm x True = (Inr m, mm', acts)"
    by (cases "load_model env mm x True") auto
  from a have fl: "\<not> flag_at_check intr" by (simp add: flag_at_check_iff)
  have ne: "after_check False env m f \<noteq> []" by (simp add: after_check_def)
  show "last (emitted (fst (transcription_run env intr mm x f)))
        = (case transcribe env m f (cuda_is_available env) of
             Inl e' \<Rightarrow> ErrorOccurred e'
           | Inr result \<Rightarrow>
               TranscriptionFinished (case result of Some t \<Rightarrow> t | None \<Rightarrow> ''''))"
    using ne by (simp add: run_emitted fl run_signals_def l after_check_not_interrupted)
  show "recognizer_calls (fst (transcription_run env intr mm x f)) = [(f, cuda_is_available env)]"
    by (simp add: run_recognizer_calls fl run_calls_def l)
next
  assume a: "4 \<le> k"
  then have fl: "flag_at_check (Some k) = flag_at_check None" by (simp add: flag_at_check_def)
  show "emitted (fst (transcription_run env (Some k) mm x f))
          = emitted (fst (transcription_run env None mm x f))"
    by (simp only: run_emitted fl)
  show "recognizer_calls (fst (transcription_run env (Some k) mm x f))
          = recognizer_calls (fst (transcription_run env None mm x f))"
    by (simp only: run_recognizer_calls fl)
  show "snd (transcription_run env (Some k) mm x f) = snd (transcription_run env None mm x f)"
    by (simp only: run_manager)
qed

lemma signals_good_uninterrupted:
  "run_signals good_env False model_manager_init ''base'' ''a.wav'' =
     [ProgressUpdated 0, ProgressUpdated 0, ProgressUpdated 100, ProgressUpdated 100,
      ProgressUpdated 50, ProgressUpdated 100, TranscriptionFinished ''ciao'']"
  by (simp add: run_signals_def load_base_good after_check_def) (simp add: good_env_def)

lemma signals_good_interrupted:
  "run_signals good_env True model_manager_init ''base'' ''a.wav'' =
     [ProgressUpdated 0, ProgressUpdated 0, ProgressUpdated 100, ProgressUpdated 100,
      ErrorOccurred interrupted_message]"
  by (simp add: run_signals_def load_base_good after_check_def)

lemma signals_offline:
  "run_signals offline_env b model_manager_init ''base'' ''a.wav'' =
     [ProgressUpdated 0, ProgressUpdated 0, ErrorOccurred ''download failed'']"
  by (simp add: run_signals_def load_base_offline)

theorem interrupt_window_witness:
  "fst (load_model good_env model_manager_init ''base'' True) = Inr ''weights of base''
   \<and> (2::nat) \<le> 3
   \<and> last (emitted (fst (transcription_run good_env (Some 2) model_manager_init ''base'' ''a.wav'')))
       = ErrorOccurred interrupted_message
   \<and> recognizer_calls (fst (transcription_run good_env (Some 2) model_manager_init ''base'' ''a.wav'')) = []
   \<and> fst (load_model offline_env model_manager_init ''base'' True) = Inl ''download failed''
   \<and> last (emitted (fst (transcription_run offline_env None model_manager_init ''base'' ''a.wav'')))
       = ErrorOccurred ''download failed''
   \<and> (4::nat) \<le> 6
   \<and> last (emitted (fst (transcription_run good_env (Some 6) model_manager_init ''base'' ''a.wav'')))
       = TranscriptionFinished ''ciao''
   \<and> recognizer_calls (fst (transcription_run good_env (Some 6) model_manager_init ''base'' ''a.wav''))
       = [(''a.wav'', False)]
   \<and> emitted (fst (transcription_run good_env (Some 6) model_manager_init ''base'' ''a.wav''))
       = emitted (fst (transcription_run good_env None model_manager_init ''base'' ''a.wav''))"
  using interrupt_window [where env = good_env and mm = model_manager_init and x = "''base''"
      and m = "''weights of base''" and k = 2 and f = "''a.wav''" and e = "''''" and intr = None]
    interrupt_window [where env = offline_env and mm = model_manager_init and x = "''base''"
      and m = "''''" and k = 0 and f = "''a.wav''" and e = "''download failed''" and intr = None]
    interrupt_window [where env = good_env and mm = model_manager_init and x = "''base''"
      and m = "''weights of base''" and k = 6 and f = "''a.wav''" and e = "''''"
      and intr = "Some 6"]
  by (simp add: load_base_good load_base_offline) (simp add: good_env_def)

text \<open>
  Claim C6 as stated fails twice. With the flag set from the start and a failing load, the
  terminal signal is the error of the load. With the flag set after the test of line 184
  and before line 189, when the recognizer has not been called yet, the run goes on to
  call it and ends in success.
\<close>

theorem interrupt_before_inference_ignored:
  "emitted (fst (transcription_run offline_env (Some 0) model_manager_init ''base'' ''a.wav''))
     = [ProgressUpdated 0, ProgressUpdated 0, ErrorOccurred ''download failed'']
   \<and> recognizer_calls (fst ((transcription_step good_env ^^ 4)
        (transcription_thread_init ''base'' ''a.wav'', model_manager_init))) = []
   \<and> pc (fst ((transcription_step good_env ^^ 4)
        (transcription_thread_init ''base'' ''a.wav'', model_manager_init))) = L189 ''weights of base''
   \<and> emitted (fst (transcription_run good_env (Some 4) model_manager_init ''base'' ''a.wav''))
     = [ProgressUpdated 0, ProgressUpdated 0, ProgressUpdated 100, ProgressUpdated 100,
        ProgressUpdated 50, ProgressUpdated 100, TranscriptionFinished ''ciao'']
   \<and> recognizer_calls (fst (transcription_run good_env (Some 4) model_manager_init ''base'' ''a.wav''))
     = [(''a.wav'', False)]"
proof -
  have s4: "(transcription_step good_env ^^ 4) s
              = transcription_step good_env ((transcription_step good_env ^^ 3) s)" for s
    by (simp add: eval_nat_numeral)
  have a: "emitted (fst (transcription_run offline_env (Some 0) model_manager_init ''base'' ''a.wav''))
     = [ProgressUpdated 0, ProgressUpdated 0, ErrorOccurred ''download failed'']"
    by (simp add: run_emitted signals_offline)
  have b: "recognizer_calls (fst ((transcription_step good_env ^^ 4)
        (transcription_thread_init ''base'' ''a.wav'', model_manager_init))) = []"
    by (simp add: s4 transcription_thread_init_def steps3 [OF load_base_good]
        transcription_step_def)
  have c: "pc (fst ((transcription_step good_env ^^ 4)
        (transcription_thread_init ''base'' ''a.wav'', model_manager_init))) = L189 ''weights of base''"
    by (simp add: s4 transcription_thread_init_def steps3 [OF load_base_good]
        transcription_step_def)
  have d: "emitted (fst (transcription_run good_env (Some 4) model_manager_init ''base'' ''a.wav''))
     = [ProgressUpdated 0, ProgressUpdated 0, ProgressUpdated 100, ProgressUpdated 100,
        ProgressUpdated 50, ProgressUpdated 100, TranscriptionFinished ''ciao'']"
    by (simp add: run_emitted flag_at_check_def signals_good_uninterrupted)
  have e: "recognizer_calls (fst (transcription_run good_env (Some 4) model_manager_init ''base'' ''a.wav''))
     = [(''a.wav'', False)]"
    by (simp add: run_recognizer_calls flag_at_check_def run_calls_def load_base_good)
       (simp add: good_env_def)
  from a b c d e show ?thesis by simp
qed

theorem job_event_order_witness:
  "(\<exists>ps t. fst (downloader_run good_env model_manager_init ''base'')
        = map ProgressUpdated ps @ [t] \<and> is_terminal t \<and> sorted ps)
   \<and> (\<exists>m. fst (load_model good_env model_manager_init ''base'' True) = Inr m)
   \<and> emitted (fst (transcription_run good_env None model_manager_init ''base'' ''a.wav''))
       = map ProgressUpdated [0, 0, 100, 100, 50, 100] @ [TranscriptionFinished ''ciao'']
   \<and> (50::int) \<in> set [0, 0, 100, 100, 50, 100]
   \<and> [0, 0, 100, 100, 50, 100] = [0, 0, 100] @ [100, 50] @ [100::int]
   \<and> recognizer_calls (fst (transcription_run good_env None model_manager_init ''base'' ''a.wav''))
       \<noteq> []
   \<and> pc (fst (transcription_run good_env None model_manager_init ''base'' ''a.wav'')) = Returned"
  using job_event_order [of good_env model_manager_init "''base''" None "''a.wav''"]
  by (simp add: run_emitted flag_at_check_def signals_good_uninterrupted load_base_good)

text \<open>
  Claim C1 as stated fails: an uninterrupted transcription on a machine where everything
  succeeds reports 100 and then 50.
\<close>

theorem transcription_progress_decreases:
  "emitted (fst (transcription_run good_env None model_manager_init ''base'' ''a.wav''))
     = [ProgressUpdated 0, ProgressUpdated 0, ProgressUpdated 100, ProgressUpdated 100,
        ProgressUpdated 50, ProgressUpdated 100, TranscriptionFinished ''ciao'']
   \<and> percentages (emitted (fst (transcription_run good_env None model_manager_init ''base'' ''a.wav'')))
     = [0, 0, 100, 100, 50, 100]
   \<and> \<not> sorted (percentages
         (emitted (fst (transcription_run good_env None model_manager_init ''base'' ''a.wav''))))"
  by (simp add: run_emitted flag_at_check_def signals_good_uninterrupted)


end
